theory Spec2Isabelle
  imports Main
begin

section \<open>Python values, exceptions and strings\<close>

text \<open>
  The program is \<^verbatim>\<open>vsmodmanager.py\<close>: a class \<^verbatim>\<open>Mod\<close> that reads
  \<^verbatim>\<open>modinfo.json\<close> out of a zip archive, and a class \<^verbatim>\<open>ModManager\<close> that scans a
  directory for such archives. Exceptions are values of \<open>error\<close>; a computation that may
  raise has a result of type \<open>error + 'a\<close>, \<open>Inl\<close> being the exception that propagates.
\<close>

datatype error =
  KeyError | AttributeError | JSONDecodeError | UnicodeDecodeError | BadZipFile
  | RuntimeError | FileNotFoundError | IsADirectoryError | NotADirectoryError
  | NotImplementedError

text \<open>
  The values \<^verbatim>\<open>json.loads\<close> returns: \<^verbatim>\<open>None\<close>, \<^verbatim>\<open>bool\<close>, \<^verbatim>\<open>int\<close>, \<^verbatim>\<open>float\<close>, \<^verbatim>\<open>str\<close>,
  \<^verbatim>\<open>list\<close> and \<^verbatim>\<open>dict\<close>. A dict is an association list in insertion order. A float is
  carried as the text Python prints for it (\<^verbatim>\<open>0.0\<close>, \<^verbatim>\<open>-0.0\<close>, \<^verbatim>\<open>1.5\<close>, \<^verbatim>\<open>inf\<close>, ...),
  which is all the program can observe of it.
\<close>

datatype json =
  JNull | JBool bool | JInt int | JFloat string | JString string
  | JArray "json list" | JObject "(string \<times> json) list"

definition and_then :: "error + 'a \<Rightarrow> ('a \<Rightarrow> error + 'b) \<Rightarrow> error + 'b" where
  "and_then r f = (case r of Inl e \<Rightarrow> Inl e | Inr x \<Rightarrow> f x)"

text \<open>
  A \<^verbatim>\<open>str\<close> is carried as a char list (its UTF-8 bytes). \<^verbatim>\<open>str.lower()\<close> is the
  interpreter's Unicode lowercase mapping and is not part of the program: it is the
  parameter \<open>lower\<close> of every definition that calls it. Where a theorem needs a property
  of it (it is idempotent; only the empty string lowers to the empty string), the
  property is a hypothesis.
\<close>

text \<open>\<^verbatim>\<open>bytes.strip()\<close>: ASCII whitespace (space, and codes 9 to 13) goes from both ends.\<close>

definition is_space :: "char \<Rightarrow> bool" where
  "is_space c = (let n = (of_char c :: nat) in n = 32 \<or> (9 \<le> n \<and> n \<le> 13))"

definition strip :: "string \<Rightarrow> string" where
  "strip s = rev (dropWhile is_space (rev (dropWhile is_space s)))"




text \<open>\<^verbatim>\<open>v.lower()\<close> on a value: only a \<^verbatim>\<open>str\<close> has the method.\<close>

definition str_lower :: "(string \<Rightarrow> string) \<Rightarrow> json \<Rightarrow> error + string" where
  "str_lower lower v = (case v of JString s \<Rightarrow> Inr (lower s) | _ \<Rightarrow> Inl AttributeError)"

text \<open>\<^verbatim>\<open>v.items()\<close> on a value: only a \<^verbatim>\<open>dict\<close> has the method.\<close>

definition dict_items :: "json \<Rightarrow> error + (string \<times> json) list" where
  "dict_items v = (case v of JObject kvs \<Rightarrow> Inr kvs | _ \<Rightarrow> Inl AttributeError)"

text \<open>
  \<^verbatim>\<open>d[k] = v\<close> on a dict: an existing key keeps its position and takes the new value,
  a new key goes to the end. \<^verbatim>\<open>d[k]\<close> raises \<^verbatim>\<open>KeyError\<close> on a missing key.
\<close>

fun dict_setitem :: "(string \<times> 'v) list \<Rightarrow> string \<Rightarrow> 'v \<Rightarrow> (string \<times> 'v) list" where
  "dict_setitem [] k v = [(k, v)]"
| "dict_setitem ((k', v') # d) k v =
     (if k' = k then (k', v) # d else (k', v') # dict_setitem d k v)"

definition dict_getitem :: "(string \<times> 'v) list \<Rightarrow> string \<Rightarrow> error + 'v" where
  "dict_getitem d k = (case map_of d k of None \<Rightarrow> Inl KeyError | Some v \<Rightarrow> Inr v)"

section \<open>The file system as the program reads it\<close>

text \<open>
  A path is the list of its parts, as in \<^verbatim>\<open>pathlib\<close>; \<^verbatim>\<open>p / name\<close> appends a part.
  A directory lists its children in the order \<^verbatim>\<open>iterdir\<close> yields them. A file
  \<^item> has no zip end-of-central-directory record (\<open>NotZip\<close>): \<^verbatim>\<open>is_zipfile\<close> rejects it;
  \<^item> has the record but is no archive that opens (\<open>Damaged\<close>): \<^verbatim>\<open>is_zipfile\<close> accepts
    it and \<^verbatim>\<open>ZipFile\<close> raises \<^verbatim>\<open>BadZipFile\<close>;
  \<^item> is an archive that opens (\<open>Zip\<close>): each entry it lists either reads as bytes or
    raises when it is read (\<^verbatim>\<open>BadZipFile\<close> on a bad checksum or header,
    \<^verbatim>\<open>RuntimeError\<close> on an encrypted entry, \<^verbatim>\<open>NotImplementedError\<close> on an unsupported
    compression).
\<close>

type_synonym path = "string list"

datatype contents = NotZip | Damaged | Zip "string \<Rightarrow> (error + string) option"

datatype node = Dir "string list" | File contents

type_synonym filesystem = "path \<Rightarrow> node option"



definition iterdir :: "filesystem \<Rightarrow> path \<Rightarrow> error + path list" where
  "iterdir fs p =
     (case fs p of
        None \<Rightarrow> Inl FileNotFoundError
      | Some (File f) \<Rightarrow> Inl NotADirectoryError
      | Some (Dir names) \<Rightarrow> Inr (map (\<lambda>n. p @ [n]) names))"

definition is_zipfile :: "filesystem \<Rightarrow> path \<Rightarrow> bool" where
  "is_zipfile fs p =
     (case fs p of
        Some (File NotZip) \<Rightarrow> False
      | Some (File c) \<Rightarrow> True
      | _ \<Rightarrow> False)"

definition ZipFile_open ::
  "filesystem \<Rightarrow> path \<Rightarrow> error + (string \<Rightarrow> (error + string) option)"
where
  "ZipFile_open fs p =
     (case fs p of
        None \<Rightarrow> Inl FileNotFoundError
      | Some (Dir names) \<Rightarrow> Inl IsADirectoryError
      | Some (File NotZip) \<Rightarrow> Inl BadZipFile
      | Some (File Damaged) \<Rightarrow> Inl BadZipFile
      | Some (File (Zip es)) \<Rightarrow> Inr es)"

definition ZipFile_read ::
  "(string \<Rightarrow> (error + string) option) \<Rightarrow> string \<Rightarrow> error + string"
where
  "ZipFile_read es name = (case es name of None \<Rightarrow> Inl KeyError | Some r \<Rightarrow> r)"

section \<open>class Mod\<close>

record Mod =
  archive :: path
  modinfo_string :: string
  modinfo_raw :: json
  modinfo :: "(string \<times> json) list"

text \<open>The comprehension \<^verbatim>\<open>{k.lower(): v for k, v in items}\<close>.\<close>

definition lower_keys ::
  "(string \<Rightarrow> string) \<Rightarrow> (string \<times> json) list \<Rightarrow> (string \<times> json) list"
where
  "lower_keys lower kvs = foldl (\<lambda>d (k, v). dict_setitem d (lower k) v) [] kvs"

text \<open>
  \<^verbatim>\<open>Mod.__init__\<close> with \<^verbatim>\<open>Mod._parse_archive\<close>. \<open>loads\<close> is \<^verbatim>\<open>json.loads\<close>, a parameter.
  Each step may raise, and nothing catches it.
\<close>

definition parse_archive ::
  "(string \<Rightarrow> string) \<Rightarrow> (string \<Rightarrow> error + json) \<Rightarrow> filesystem \<Rightarrow> path
     \<Rightarrow> error + string \<times> json \<times> (string \<times> json) list"
where
  "parse_archive lower loads fs a =
     and_then (ZipFile_open fs a) (\<lambda>z.
     and_then (ZipFile_read z ''modinfo.json'') (\<lambda>b.
     let s = strip b in
     and_then (loads s) (\<lambda>raw.
     and_then (dict_items raw) (\<lambda>items.
     Inr (s, raw, lower_keys lower items)))))"

definition Mod_init ::
  "(string \<Rightarrow> string) \<Rightarrow> (string \<Rightarrow> error + json) \<Rightarrow> filesystem \<Rightarrow> path \<Rightarrow> error + Mod"
where
  "Mod_init lower loads fs a =
     and_then (parse_archive lower loads fs a) (\<lambda>(s, raw, info).
     Inr \<lparr>archive = a, modinfo_string = s, modinfo_raw = raw, modinfo = info\<rparr>)"

text \<open>
  \<^verbatim>\<open>Mod.__getattr__\<close>: the subscript may raise \<^verbatim>\<open>KeyError\<close>, and \<^verbatim>\<open>except Exception\<close>
  turns every exception into the empty string. The name is looked up as it is given.
\<close>

definition Mod_getattr :: "Mod \<Rightarrow> string \<Rightarrow> error + json" where
  "Mod_getattr m name =
     (case dict_getitem (modinfo m) name of
        Inr v \<Rightarrow> Inr v
      | Inl e \<Rightarrow> Inr (JString []))"




text \<open>The stubs: a docstring, and \<^verbatim>\<open>pass\<close> or nothing. Each returns \<^verbatim>\<open>None\<close>.\<close>

definition Mod_check_update :: "Mod \<Rightarrow> (error + unit) \<times> Mod" where
  "Mod_check_update m = (Inr (), m)"

definition Mod_remove :: "Mod \<Rightarrow> (error + unit) \<times> Mod" where
  "Mod_remove m = (Inr (), m)"

definition Mod_update :: "Mod \<Rightarrow> string \<Rightarrow> (error + unit) \<times> Mod" where
  "Mod_update m version = (Inr (), m)"

section \<open>class ModManager\<close>

record ModManager =
  data_path :: path
  mods_path :: path
  mods :: "Mod list"

text \<open>The comprehension \<^verbatim>\<open>[Mod(f) for f in mod_archives]\<close>: the first failure ends it.\<close>

fun construct_all ::
  "(string \<Rightarrow> string) \<Rightarrow> (string \<Rightarrow> error + json) \<Rightarrow> filesystem \<Rightarrow> path list
     \<Rightarrow> error + Mod list"
where
  "construct_all lower loads fs [] = Inr []"
| "construct_all lower loads fs (f # rest) =
     and_then (Mod_init lower loads fs f) (\<lambda>m.
     and_then (construct_all lower loads fs rest) (\<lambda>ms.
     Inr (m # ms)))"

text \<open>
  \<^verbatim>\<open>ModManager._mods_refresh\<close>: both comprehensions are evaluated before the assignment
  to \<^verbatim>\<open>self.mods\<close>, so an exception leaves the object as it was.
\<close>

definition mods_refresh ::
  "(string \<Rightarrow> string) \<Rightarrow> (string \<Rightarrow> error + json) \<Rightarrow> filesystem \<Rightarrow> ModManager
     \<Rightarrow> (error + unit) \<times> ModManager"
where
  "mods_refresh lower loads fs mm =
     (case iterdir fs (mods_path mm) of
        Inl e \<Rightarrow> (Inl e, mm)
      | Inr entries \<Rightarrow>
          let mod_archives = filter (is_zipfile fs) entries in
          (case construct_all lower loads fs mod_archives of
             Inl e \<Rightarrow> (Inl e, mm)
           | Inr ms \<Rightarrow> (Inr (), mm\<lparr>mods := ms\<rparr>)))"

text \<open>
  \<^verbatim>\<open>ModManager._mods_get\<close>: for each mod in turn the tuple
  \<^verbatim>\<open>(mod.name.lower(), mod.modid.lower())\<close> is built, both calls being made, and the
  lowercased query is tested for membership.
\<close>

fun select_mods :: "(string \<Rightarrow> string) \<Rightarrow> string \<Rightarrow> Mod list \<Rightarrow> error + Mod list" where
  "select_mods lower q [] = Inr []"
| "select_mods lower q (m # rest) =
     and_then (Mod_getattr m ''name'') (\<lambda>n.
     and_then (str_lower lower n) (\<lambda>ln.
     and_then (Mod_getattr m ''modid'') (\<lambda>i.
     and_then (str_lower lower i) (\<lambda>li.
     and_then (select_mods lower q rest) (\<lambda>ms.
     Inr (if q = ln \<or> q = li then m # ms else ms))))))"

definition mods_get :: "(string \<Rightarrow> string) \<Rightarrow> ModManager \<Rightarrow> string \<Rightarrow> error + Mod list" where
  "mods_get lower mm modid = (let modid = lower modid in select_mods lower modid (mods mm))"

definition mod_install :: "ModManager \<Rightarrow> (error + unit) \<times> ModManager" where
  "mod_install mm = (Inr (), mm)"

definition mod_remove :: "ModManager \<Rightarrow> string \<Rightarrow> (error + unit) \<times> ModManager" where
  "mod_remove mm modid = (Inr (), mm)"

section \<open>Notions of the specification\<close>

text \<open>
  A valid mod archive: a zip container that opens, with an entry \<^verbatim>\<open>modinfo.json\<close>
  that can be read and parses to a JSON object.
\<close>

definition valid_mod_archive :: "(string \<Rightarrow> error + json) \<Rightarrow> filesystem \<Rightarrow> path \<Rightarrow> bool" where
  "valid_mod_archive loads fs f =
     (case fs f of
        Some (File (Zip es)) \<Rightarrow>
          (case es ''modinfo.json'' of
             Some (Inr b) \<Rightarrow>
               (case loads (strip b) of Inr (JObject kvs) \<Rightarrow> True | _ \<Rightarrow> False)
           | _ \<Rightarrow> False)
      | _ \<Rightarrow> False)"

text \<open>A metadata field that is a string when it is there, and the text it reads as.\<close>

definition text_or_absent :: "Mod \<Rightarrow> string \<Rightarrow> bool" where
  "text_or_absent m key =
     (case map_of (modinfo m) key of None \<Rightarrow> True | Some (JString s) \<Rightarrow> True | _ \<Rightarrow> False)"

definition field_text :: "Mod \<Rightarrow> string \<Rightarrow> string" where
  "field_text m key = (case map_of (modinfo m) key of Some (JString s) \<Rightarrow> s | _ \<Rightarrow> [])"


text \<open>A field that is missing or is the empty string.\<close>

definition absent_or_empty :: "Mod \<Rightarrow> string \<Rightarrow> bool" where
  "absent_or_empty m key =
     (map_of (modinfo m) key = None \<or> map_of (modinfo m) key = Some (JString []))"

section \<open>Example archives\<close>

text \<open>
  The documents of the examples, the value \<^verbatim>\<open>json.loads\<close> gives for each of them, and a
  file system holding them. The theorems below are stated for every \<open>lower\<close>, every
  \<open>loads\<close> and every file system; these constants only instantiate them. Any text
  other than the five documents is treated as malformed by \<open>sample_loads\<close>.
\<close>

text \<open>
  \<^verbatim>\<open>str.lower()\<close> on ASCII text, which is all the examples hold: only the letters
  \<^verbatim>\<open>A\<close> to \<^verbatim>\<open>Z\<close> (codes 65 to 90) change; bit 5 is set, which adds 32.
\<close>

definition ascii_lower_char :: "char \<Rightarrow> char" where
  "ascii_lower_char c =
     (let n = (of_char c :: nat) in
      if 65 \<le> n \<and> n \<le> 90
      then (case c of Char b0 b1 b2 b3 b4 b5 b6 b7 \<Rightarrow> Char b0 b1 b2 b3 b4 True b6 b7)
      else c)"

definition ascii_lower :: "string \<Rightarrow> string" where
  "ascii_lower s = map ascii_lower_char s"

definition doc_a :: string where
  "doc_a = ''{\"Name\":\"Test Mod\",\"ModID\":\"testmod\",\"Version\":\"1.0.0\",\"Description\":\"A test\"}''"

definition doc_b :: string where
  "doc_b = ''{\"ModID\":\"bare\"}''"

definition doc_list :: string where
  "doc_list = ''[]''"

definition doc_zero :: string where
  "doc_zero = ''{\"ModID\":\"zero\",\"Version\":0}''"

definition doc_five :: string where
  "doc_five = ''{\"Name\":5,\"ModID\":\"five\"}''"

definition raw_a :: json where
  "raw_a = JObject [(''Name'', JString ''Test Mod''), (''ModID'', JString ''testmod''),
                    (''Version'', JString ''1.0.0''), (''Description'', JString ''A test'')]"

definition raw_b :: json where
  "raw_b = JObject [(''ModID'', JString ''bare'')]"

definition raw_zero :: json where
  "raw_zero = JObject [(''ModID'', JString ''zero''), (''Version'', JInt 0)]"

definition raw_five :: json where
  "raw_five = JObject [(''Name'', JInt 5), (''ModID'', JString ''five'')]"

definition sample_loads :: "string \<Rightarrow> error + json" where
  "sample_loads s =
     (if s = doc_a then Inr raw_a
      else if s = doc_b then Inr raw_b
      else if s = doc_list then Inr (JArray [])
      else if s = doc_zero then Inr raw_zero
      else if s = doc_five then Inr raw_five
      else Inl JSONDecodeError)"


definition mods_dir :: path where
  "mods_dir = [''/'', ''data'', ''Mods'']"

definition odd_dir :: path where
  "odd_dir = [''/'', ''odd'', ''Mods'']"

definition bad_dir :: path where
  "bad_dir = [''/'', ''bad'', ''Mods'']"

definition junk_dir :: path where
  "junk_dir = [''/'', ''junk'', ''Mods'']"

definition list_dir :: path where
  "list_dir = [''/'', ''list'', ''Mods'']"

definition sample_fs :: filesystem where
  "sample_fs = map_of
     [(mods_dir, Dir [''a.zip'', ''notes.txt'', ''b.zip'']),
      (mods_dir @ [''a.zip''], File (Zip [''modinfo.json'' \<mapsto> Inr (doc_a @ [CHR 0x0A])])),
      (mods_dir @ [''notes.txt''], File NotZip),
      (mods_dir @ [''b.zip''], File (Zip [''modinfo.json'' \<mapsto> Inr doc_b])),
      (odd_dir, Dir [''five.zip'', ''zero.zip'']),
      (odd_dir @ [''five.zip''], File (Zip [''modinfo.json'' \<mapsto> Inr doc_five])),
      (odd_dir @ [''zero.zip''], File (Zip [''modinfo.json'' \<mapsto> Inr doc_zero])),
      (bad_dir, Dir [''b.zip'', ''list.zip'', ''empty.zip'']),
      (bad_dir @ [''b.zip''], File (Zip [''modinfo.json'' \<mapsto> Inr doc_b])),
      (bad_dir @ [''list.zip''], File (Zip [''modinfo.json'' \<mapsto> Inr doc_list])),
      (bad_dir @ [''empty.zip''], File (Zip Map.empty)),
      (junk_dir, Dir [''b.zip'', ''junk.dat'']),
      (junk_dir @ [''b.zip''], File (Zip [''modinfo.json'' \<mapsto> Inr doc_b])),
      (junk_dir @ [''junk.dat''], File Damaged),
      (list_dir, Dir [''list.zip'', ''notes.txt'']),
      (list_dir @ [''list.zip''], File (Zip [''modinfo.json'' \<mapsto> Inr doc_list])),
      (list_dir @ [''notes.txt''], File NotZip)]"

definition mod_a :: Mod where
  "mod_a = \<lparr>archive = mods_dir @ [''a.zip''], modinfo_string = doc_a, modinfo_raw = raw_a,
     modinfo = [(''name'', JString ''Test Mod''), (''modid'', JString ''testmod''),
                (''version'', JString ''1.0.0''), (''description'', JString ''A test'')]\<rparr>"

definition mod_b :: Mod where
  "mod_b = \<lparr>archive = mods_dir @ [''b.zip''], modinfo_string = doc_b, modinfo_raw = raw_b,
     modinfo = [(''modid'', JString ''bare'')]\<rparr>"

definition mod_zero :: Mod where
  "mod_zero = \<lparr>archive = odd_dir @ [''zero.zip''], modinfo_string = doc_zero,
     modinfo_raw = raw_zero, modinfo = [(''modid'', JString ''zero''), (''version'', JInt 0)]\<rparr>"

definition mod_five :: Mod where
  "mod_five = \<lparr>archive = odd_dir @ [''five.zip''], modinfo_string = doc_five,
     modinfo_raw = raw_five, modinfo = [(''name'', JInt 5), (''modid'', JString ''five'')]\<rparr>"

definition manager :: "path \<Rightarrow> Mod list \<Rightarrow> ModManager" where
  "manager dir ms = \<lparr>data_path = butlast dir, mods_path = dir, mods = ms\<rparr>"

section \<open>Auxiliary facts\<close>

lemma and_then_Inl: "and_then (Inl e) f = Inl e" by (simp add: and_then_def)
lemma and_then_Inr: "and_then (Inr x) f = f x" by (simp add: and_then_def)

lemma and_then_eq_Inr: "and_then r f = Inr y \<longleftrightarrow> (\<exists>x. r = Inr x \<and> f x = Inr y)"
  by (cases r) (simp_all add: and_then_def)

lemma ascii_lower_char_idem: "ascii_lower_char (ascii_lower_char c) = ascii_lower_char c"
  unfolding ascii_lower_char_def Let_def by (cases c) auto

lemma ascii_lower_idem: "ascii_lower (ascii_lower s) = ascii_lower s"
  by (simp add: ascii_lower_def ascii_lower_char_idem)

lemma map_of_dict_setitem: "map_of (dict_setitem d k v) = (map_of d)(k \<mapsto> v)"
  by (induction d k v rule: dict_setitem.induct) (auto simp: fun_eq_iff)

lemma keys_dict_setitem: "fst ` set (dict_setitem d k v) = insert k (fst ` set d)"
  by (induction d k v rule: dict_setitem.induct) auto

lemma distinct_dict_setitem:
  "distinct (map fst d) \<Longrightarrow> distinct (map fst (dict_setitem d k v))"
  by (induction d k v rule: dict_setitem.induct) (auto simp: keys_dict_setitem)

lemma foldl_setitem_map_of:
  "map_of (foldl (\<lambda>d (k, v). dict_setitem d (lower k) v) d0 kvs)
     = map_of d0 ++ map_of (rev (map (\<lambda>(k, v). (lower k, v)) kvs))"
  by (induction kvs arbitrary: d0) (auto simp: map_of_dict_setitem fun_eq_iff map_add_def split: option.splits)


lemma foldl_setitem_distinct:
  "distinct (map fst d0) \<Longrightarrow>
   distinct (map fst (foldl (\<lambda>d (k, v). dict_setitem d (lower k) v) d0 kvs))"
  by (induction kvs arbitrary: d0) (auto simp: distinct_dict_setitem)

lemma map_of_lower_keys:
  "map_of (lower_keys lower kvs) = map_of (rev (map (\<lambda>(k, v). (lower k, v)) kvs))"
  by (simp add: lower_keys_def foldl_setitem_map_of)

lemma keys_lower_keys: "fst ` set (lower_keys lower kvs) = lower ` fst ` set kvs"
proof -
  have "fst ` set (lower_keys lower kvs) = dom (map_of (lower_keys lower kvs))"
    by (simp add: dom_map_of_conv_image_fst)
  also have "\<dots> = fst ` set (rev (map (\<lambda>(k, v). (lower k, v)) kvs))"
    by (simp only: map_of_lower_keys dom_map_of_conv_image_fst)
  also have "\<dots> = lower ` fst ` set kvs"
    by (force simp: image_iff)
  finally show ?thesis .
qed

lemma distinct_lower_keys: "distinct (map fst (lower_keys lower kvs))"
  by (simp add: lower_keys_def foldl_setitem_distinct)

lemma Mod_getattr_eq:
  "Mod_getattr m name = Inr (case map_of (modinfo m) name of None \<Rightarrow> JString [] | Some v \<Rightarrow> v)"
  by (simp add: Mod_getattr_def dict_getitem_def split: option.splits)

lemma parse_archive_Inr_iff:
  "parse_archive lower loads fs a = Inr r \<longleftrightarrow>
     (\<exists>es b kvs. fs a = Some (File (Zip es)) \<and> es ''modinfo.json'' = Some (Inr b)
        \<and> loads (strip b) = Inr (JObject kvs)
        \<and> r = (strip b, JObject kvs, lower_keys lower kvs))"
proof (cases "fs a")
  case None
  then show ?thesis by (simp add: parse_archive_def ZipFile_open_def and_then_Inl)
next
  case (Some n)
  show ?thesis
  proof (cases n)
    case (Dir names)
    with Some show ?thesis by (simp add: parse_archive_def ZipFile_open_def and_then_Inl)
  next
    case (File c)
    show ?thesis
    proof (cases c)
      case NotZip
      with Some File show ?thesis by (simp add: parse_archive_def ZipFile_open_def and_then_Inl)
    next
      case Damaged
      with Some File show ?thesis by (simp add: parse_archive_def ZipFile_open_def and_then_Inl)
    next
      case (Zip es)
      show ?thesis
      proof (cases "es ''modinfo.json''")
        case None
        with Some File Zip show ?thesis
          by (simp add: parse_archive_def ZipFile_open_def ZipFile_read_def and_then_Inl and_then_Inr)
      next
        case (Some r)
        show ?thesis
        proof (cases r)
          case (Inl e)
          with \<open>fs a = Some n\<close> File Zip Some show ?thesis
            by (simp add: parse_archive_def ZipFile_open_def ZipFile_read_def and_then_Inl
                and_then_Inr)
        next
          case (Inr b)
          have open_read: "parse_archive lower loads fs a =
              and_then (loads (strip b)) (\<lambda>raw. and_then (dict_items raw) (\<lambda>items.
                Inr (strip b, raw, lower_keys lower items)))"
            using \<open>fs a = Some n\<close> File Zip Some Inr
            by (simp add: parse_archive_def ZipFile_open_def ZipFile_read_def and_then_Inr Let_def)
          show ?thesis
          proof (cases "loads (strip b)")
            case (Inl e)
            with open_read \<open>fs a = Some n\<close> File Zip Some \<open>r = Inr b\<close> show ?thesis
              by (simp add: and_then_Inl)
          next
            case (Inr raw)
            with open_read \<open>fs a = Some n\<close> File Zip Some \<open>r = Inr b\<close> show ?thesis
              by (cases raw) (auto simp: and_then_Inl and_then_Inr dict_items_def)
          qed
        qed
      qed
    qed
  qed
qed

lemma Mod_init_Inr_iff:
  "Mod_init lower loads fs a = Inr m \<longleftrightarrow>
     (\<exists>es b kvs. fs a = Some (File (Zip es)) \<and> es ''modinfo.json'' = Some (Inr b)
        \<and> loads (strip b) = Inr (JObject kvs)
        \<and> m = \<lparr>archive = a, modinfo_string = strip b, modinfo_raw = JObject kvs,
                modinfo = lower_keys lower kvs\<rparr>)"
proof (cases "parse_archive lower loads fs a")
  case (Inl e)
  then have "Mod_init lower loads fs a = Inl e" by (simp add: Mod_init_def and_then_Inl)
  moreover have "\<not> (\<exists>r. parse_archive lower loads fs a = Inr r)" using Inl by simp
  ultimately show ?thesis unfolding parse_archive_Inr_iff by auto
next
  case (Inr r)
  obtain s raw info where r: "r = (s, raw, info)" by (cases r)
  have "Mod_init lower loads fs a
      = Inr \<lparr>archive = a, modinfo_string = s, modinfo_raw = raw, modinfo = info\<rparr>"
    using Inr r by (simp add: Mod_init_def and_then_Inr)
  moreover from Inr r obtain es b kvs where "fs a = Some (File (Zip es))"
    "es ''modinfo.json'' = Some (Inr b)" "loads (strip b) = Inr (JObject kvs)"
    "s = strip b" "raw = JObject kvs" "info = lower_keys lower kvs"
    unfolding parse_archive_Inr_iff by auto
  ultimately show ?thesis by auto
qed

subsection \<open>The example archives, evaluated\<close>

lemmas sample_defs = sample_loads_def sample_fs_def mods_dir_def odd_dir_def bad_dir_def junk_dir_def list_dir_def
  doc_a_def doc_b_def doc_list_def doc_zero_def doc_five_def raw_a_def raw_b_def raw_zero_def raw_five_def

lemma strip_doc: "strip (doc_a @ [CHR 0x0A]) = doc_a"
  by (simp add: strip_def is_space_def doc_a_def)

lemma init_a: "Mod_init ascii_lower sample_loads sample_fs (mods_dir @ [''a.zip'']) = Inr mod_a"
  by (simp add: Mod_init_def parse_archive_def and_then_def ZipFile_open_def ZipFile_read_def
     dict_items_def lower_keys_def ascii_lower_def ascii_lower_char_def strip_def is_space_def mod_a_def sample_defs)

lemma init_b: "Mod_init ascii_lower sample_loads sample_fs (mods_dir @ [''b.zip'']) = Inr mod_b"
  by (simp add: Mod_init_def parse_archive_def and_then_def ZipFile_open_def ZipFile_read_def
     dict_items_def lower_keys_def ascii_lower_def ascii_lower_char_def strip_def is_space_def mod_b_def sample_defs)

lemma init_list: "Mod_init ascii_lower sample_loads sample_fs (bad_dir @ [''list.zip'']) = Inl AttributeError"
  by (simp add: Mod_init_def parse_archive_def and_then_def ZipFile_open_def ZipFile_read_def
     dict_items_def lower_keys_def ascii_lower_def ascii_lower_char_def strip_def is_space_def sample_defs)

section \<open>Field access\<close>

lemma Mod_init_keys_lowered:
  assumes "Mod_init lower loads fs a = Inr m" and "\<forall>s. lower (lower s) = lower s"
  shows "\<forall>k \<in> fst ` set (modinfo m). lower k = k"
proof -
  from assms(1) obtain kvs where "modinfo m = lower_keys lower kvs"
    unfolding Mod_init_Inr_iff by auto
  then show ?thesis using assms(2) by (auto simp: keys_lower_keys)
qed

lemma map_of_same_value:
  "(a, b) \<in> set xs \<Longrightarrow> \<forall>(a', b') \<in> set xs. a' = a \<longrightarrow> b' = b \<Longrightarrow> map_of xs a = Some b"
  by (induction xs) auto

text \<open>
  C1 (as amended). For a record built from an archive, let \<open>k\<close> be a key of the parsed
  JSON object with value \<open>v\<close>, no entry whose key has the same lowercase form (under
  \<^verbatim>\<open>str.lower\<close>) carrying another value. Then field access by the lowercase form of
  \<open>k\<close> returns \<open>v\<close>, and field access by any name that \<^verbatim>\<open>str.lower\<close> changes returns
  the empty string: the keys are lowercased at parse time, the requested name is not.
  \<^verbatim>\<open>str.lower\<close> is any idempotent function here.
\<close>

theorem getattr_lowercased_key_only:
  assumes "Mod_init lower loads fs a = Inr m"
    and "dict_items (modinfo_raw m) = Inr kvs"
    and "(k, v) \<in> set kvs"
    and "\<forall>(k', v') \<in> set kvs. lower k' = lower k \<longrightarrow> v' = v"
    and "\<forall>s. lower (lower s) = lower s"
  shows "Mod_getattr m (lower k) = Inr v
       \<and> (\<forall>name. name \<noteq> lower name \<longrightarrow> Mod_getattr m name = Inr (JString []))"
proof
  from assms(1) obtain kvs' where raw: "modinfo_raw m = JObject kvs'"
    and info: "modinfo m = lower_keys lower kvs'"
    unfolding Mod_init_Inr_iff by auto
  from raw assms(2) have "kvs' = kvs" by (simp add: dict_items_def)
  with info have info': "modinfo m = lower_keys lower kvs" by simp
  let ?xs = "rev (map (\<lambda>(k, v). (lower k, v)) kvs)"
  have "(lower k, v) \<in> set ?xs" using assms(3) by force
  moreover have "\<forall>(a', b') \<in> set ?xs. a' = lower k \<longrightarrow> b' = v"
    using assms(4) by auto
  ultimately have "map_of ?xs (lower k) = Some v" by (rule map_of_same_value)
  then show "Mod_getattr m (lower k) = Inr v"
    by (simp add: Mod_getattr_eq info' map_of_lower_keys)
next
  show "\<forall>name. name \<noteq> lower name \<longrightarrow> Mod_getattr m name = Inr (JString [])"
  proof (intro allI impI)
    fix name assume "name \<noteq> lower name"
    with Mod_init_keys_lowered [OF assms(1) assms(5)] have "name \<notin> fst ` set (modinfo m)"
      by auto
    then have "map_of (modinfo m) name = None" by (simp add: map_of_eq_None_iff)
    then show "Mod_getattr m name = Inr (JString [])" by (simp add: Mod_getattr_eq)
  qed
qed

text \<open>
  C1 as stated fails: the archive \<^verbatim>\<open>a.zip\<close> has the key \<^verbatim>\<open>Name\<close>, and requesting
  \<^verbatim>\<open>Name\<close> or \<^verbatim>\<open>NAME\<close> gives the empty string, not \<^verbatim>\<open>Test Mod\<close>.
\<close>

theorem getattr_mixed_case_counterexample:
  "Mod_init ascii_lower sample_loads sample_fs (mods_dir @ [''a.zip'']) = Inr mod_a
   \<and> dict_items (modinfo_raw mod_a) = Inr [(''Name'', JString ''Test Mod''), (''ModID'', JString ''testmod''),
                    (''Version'', JString ''1.0.0''), (''Description'', JString ''A test'')]
   \<and> Mod_getattr mod_a ''Name'' = Inr (JString [])
   \<and> Mod_getattr mod_a ''NAME'' = Inr (JString [])"
  by (simp add: init_a) (simp add: Mod_getattr_def dict_getitem_def dict_items_def mod_a_def raw_a_def)

theorem getattr_lowercased_key_only_witness:
  "Mod_init ascii_lower sample_loads sample_fs (mods_dir @ [''a.zip'']) = Inr mod_a
   \<and> dict_items (modinfo_raw mod_a) = Inr [(''Name'', JString ''Test Mod''), (''ModID'', JString ''testmod''),
                    (''Version'', JString ''1.0.0''), (''Description'', JString ''A test'')]
   \<and> Mod_getattr mod_a ''name'' = Inr (JString ''Test Mod'')
   \<and> Mod_getattr mod_a ''nAME'' = Inr (JString [])"
proof -
  let ?kvs = "[(''Name'', JString ''Test Mod''), (''ModID'', JString ''testmod''),
                    (''Version'', JString ''1.0.0''), (''Description'', JString ''A test'')]"
  have h1: "Mod_init ascii_lower sample_loads sample_fs (mods_dir @ [''a.zip'']) = Inr mod_a"
    by (rule init_a)
  have h2: "dict_items (modinfo_raw mod_a) = Inr ?kvs"
    by (simp add: dict_items_def mod_a_def raw_a_def)
  have h3: "(''Name'', JString ''Test Mod'') \<in> set ?kvs" by simp
  have h4: "\<forall>(k', v') \<in> set ?kvs. ascii_lower k' = ascii_lower ''Name'' \<longrightarrow> v' = JString ''Test Mod''"
    by (simp add: ascii_lower_def ascii_lower_char_def)
  have l: "ascii_lower ''Name'' = ''name''" "''nAME'' \<noteq> ascii_lower ''nAME''" by (simp_all add: ascii_lower_def ascii_lower_char_def)
  have h5: "\<forall>s. ascii_lower (ascii_lower s) = ascii_lower s" by (simp add: ascii_lower_idem)
  from getattr_lowercased_key_only [OF h1 h2 h3 h4 h5] l h1 h2 show ?thesis by auto
qed

text \<open>
  C2. For a record built from an archive, field access (\<^verbatim>\<open>__getattr__\<close>) returns a value
  for every name and never raises, and it returns the empty string for every name whose
  lowercase form is not a key of the metadata mapping. \<^verbatim>\<open>str.lower\<close> is any idempotent
  function here.
\<close>

theorem getattr_total_default_empty:
  assumes "Mod_init lower loads fs a = Inr m" and "\<forall>s. lower (lower s) = lower s"
  shows "(\<forall>name. \<exists>v. Mod_getattr m name = Inr v)
       \<and> (\<forall>name. lower name \<notin> fst ` set (modinfo m) \<longrightarrow> Mod_getattr m name = Inr (JString []))"
proof
  show "\<forall>name. \<exists>v. Mod_getattr m name = Inr v" by (simp add: Mod_getattr_eq)
next
  show "\<forall>name. lower name \<notin> fst ` set (modinfo m) \<longrightarrow> Mod_getattr m name = Inr (JString [])"
  proof (intro allI impI)
    fix name assume absent: "lower name \<notin> fst ` set (modinfo m)"
    have "name \<notin> fst ` set (modinfo m)"
    proof
      assume "name \<in> fst ` set (modinfo m)"
      with Mod_init_keys_lowered [OF assms] have "lower name = name" by auto
      with \<open>name \<in> fst ` set (modinfo m)\<close> absent show False by simp
    qed
    then have "map_of (modinfo m) name = None" by (simp add: map_of_eq_None_iff)
    then show "Mod_getattr m name = Inr (JString [])" by (simp add: Mod_getattr_eq)
  qed
qed

theorem getattr_total_default_empty_witness:
  "Mod_init ascii_lower sample_loads sample_fs (mods_dir @ [''b.zip'']) = Inr mod_b
   \<and> ascii_lower ''Version'' \<notin> fst ` set (modinfo mod_b)
   \<and> Mod_getattr mod_b ''Version'' = Inr (JString [])
   \<and> (\<exists>v. Mod_getattr mod_b ''modid'' = Inr v)"
proof -
  have h: "Mod_init ascii_lower sample_loads sample_fs (mods_dir @ [''b.zip'']) = Inr mod_b" by (rule init_b)
  have a: "ascii_lower ''Version'' \<notin> fst ` set (modinfo mod_b)"
    by (simp add: mod_b_def ascii_lower_def ascii_lower_char_def)
  have i: "\<forall>s. ascii_lower (ascii_lower s) = ascii_lower s" by (simp add: ascii_lower_idem)
  from getattr_total_default_empty [OF h i] a h show ?thesis by blast
qed

section \<open>Refresh\<close>

lemma valid_mod_archive_iff:
  "valid_mod_archive loads fs f \<longleftrightarrow> (\<exists>m. Mod_init lower loads fs f = Inr m)"
proof (cases "fs f")
  case None
  then show ?thesis by (simp add: valid_mod_archive_def Mod_init_Inr_iff)
next
  case (Some n)
  show ?thesis
  proof (cases n)
    case (Dir names)
    with Some show ?thesis by (simp add: valid_mod_archive_def Mod_init_Inr_iff)
  next
    case (File c)
    show ?thesis
    proof (cases c)
      case NotZip
      with Some File show ?thesis by (simp add: valid_mod_archive_def Mod_init_Inr_iff)
    next
      case Damaged
      with Some File show ?thesis by (simp add: valid_mod_archive_def Mod_init_Inr_iff)
    next
      case (Zip es)
      show ?thesis
      proof (cases "es ''modinfo.json''")
        case None
        with \<open>fs f = Some n\<close> File Zip show ?thesis
          by (simp add: valid_mod_archive_def Mod_init_Inr_iff)
      next
        case (Some r)
        show ?thesis
        proof (cases r)
          case (Inl e)
          with \<open>fs f = Some n\<close> File Zip Some show ?thesis
            by (simp add: valid_mod_archive_def Mod_init_Inr_iff)
        next
          case (Inr b)
          show ?thesis
          proof (cases "loads (strip b)")
            case (Inl e)
            with \<open>fs f = Some n\<close> File Zip Some \<open>r = Inr b\<close> show ?thesis
              by (simp add: valid_mod_archive_def Mod_init_Inr_iff)
          next
            case (Inr v)
            with \<open>fs f = Some n\<close> File Zip Some \<open>r = Inr b\<close> show ?thesis
              by (cases v) (simp_all add: valid_mod_archive_def Mod_init_Inr_iff)
          qed
        qed
      qed
    qed
  qed
qed

lemma valid_mod_archive_is_zipfile: "valid_mod_archive loads fs f \<Longrightarrow> is_zipfile fs f"
  by (auto simp: valid_mod_archive_def is_zipfile_def split: option.splits node.splits contents.splits)

lemma construct_all_Inr_iff:
  "construct_all lower loads fs ps = Inr ms \<longleftrightarrow> list_all2 (\<lambda>p m. Mod_init lower loads fs p = Inr m) ps ms"
proof (induction ps arbitrary: ms)
  case Nil
  then show ?case by auto
next
  case (Cons p ps)
  show ?case
    by (cases ms) (auto simp: and_then_eq_Inr Cons.IH)
qed

lemma construct_all_Inl:
  assumes "p \<in> set ps" and "Mod_init lower loads fs p = Inl e"
  shows "\<exists>e'. construct_all lower loads fs ps = Inl e'"
proof (cases "construct_all lower loads fs ps")
  case (Inl e')
  then show ?thesis by blast
next
  case (Inr ms)
  then have "list_all2 (\<lambda>p m. Mod_init lower loads fs p = Inr m) ps ms"
    by (simp add: construct_all_Inr_iff)
  with assms(1) obtain m where "Mod_init lower loads fs p = Inr m"
    by (auto simp: list_all2_conv_all_nth in_set_conv_nth)
  with assms(2) show ?thesis by simp
qed

lemma construct_all_valid:
  assumes "\<forall>p \<in> set ps. valid_mod_archive loads fs p"
  shows "\<exists>ms. construct_all lower loads fs ps = Inr ms \<and> map archive ms = ps
           \<and> (\<forall>m \<in> set ms. Mod_init lower loads fs (archive m) = Inr m)"
  using assms
proof (induction ps)
  case Nil
  then show ?case by simp
next
  case (Cons p ps)
  then obtain ms where ms: "construct_all lower loads fs ps = Inr ms" "map archive ms = ps"
    "\<forall>m \<in> set ms. Mod_init lower loads fs (archive m) = Inr m" by auto
  from Cons.prems obtain m where m: "Mod_init lower loads fs p = Inr m"
    by (auto simp: valid_mod_archive_iff [where lower = lower])
  then have "archive m = p" unfolding Mod_init_Inr_iff by auto
  with m ms show ?case by (auto simp: and_then_Inr)
qed

text \<open>
  C3 (as amended). Let the mods directory be listable. If each of its entries is either
  a valid mod archive or a file that \<^verbatim>\<open>is_zipfile\<close> rejects, a refresh succeeds and
  stores one record per valid archive, in enumeration order, each the record built from
  its archive; the rejected entries are skipped, so the number of records and the number
  of skipped entries add up to the number of entries. If some entry is accepted by
  \<^verbatim>\<open>is_zipfile\<close> and is not a valid mod archive, the refresh raises and the manager
  stays as it was.
\<close>

theorem refresh_one_record_per_valid_archive:
  assumes "iterdir fs (mods_path mm) = Inr entries"
  shows "((\<forall>f \<in> set entries. valid_mod_archive loads fs f \<or> \<not> is_zipfile fs f) \<longrightarrow>
           (\<exists>ms. mods_refresh lower loads fs mm = (Inr (), mm\<lparr>mods := ms\<rparr>)
              \<and> map archive ms = filter (valid_mod_archive loads fs) entries
              \<and> length ms + length (filter (\<lambda>f. \<not> is_zipfile fs f) entries) = length entries
              \<and> (\<forall>m \<in> set ms. Mod_init lower loads fs (archive m) = Inr m)))
       \<and> ((\<exists>f \<in> set entries. is_zipfile fs f \<and> \<not> valid_mod_archive loads fs f) \<longrightarrow>
           (\<exists>e. mods_refresh lower loads fs mm = (Inl e, mm)))"
proof (intro conjI impI)
  assume all: "\<forall>f \<in> set entries. valid_mod_archive loads fs f \<or> \<not> is_zipfile fs f"
  have same: "filter (is_zipfile fs) entries = filter (valid_mod_archive loads fs) entries"
    using all by (intro filter_cong refl) (auto dest: valid_mod_archive_is_zipfile)
  have "\<forall>p \<in> set (filter (is_zipfile fs) entries). valid_mod_archive loads fs p"
    using all by auto
  from construct_all_valid [OF this] obtain ms where
    ms: "construct_all lower loads fs (filter (is_zipfile fs) entries) = Inr ms"
      "map archive ms = filter (is_zipfile fs) entries"
      "\<forall>m \<in> set ms. Mod_init lower loads fs (archive m) = Inr m" by blast
  have r: "mods_refresh lower loads fs mm = (Inr (), mm\<lparr>mods := ms\<rparr>)"
    using assms ms(1) by (simp add: mods_refresh_def)
  have "length ms = length (filter (is_zipfile fs) entries)"
    using ms(2) by (metis length_map)
  then have l: "length ms + length (filter (\<lambda>f. \<not> is_zipfile fs f) entries) = length entries"
    by (simp add: sum_length_filter_compl)
  from ms(2) same have a: "map archive ms = filter (valid_mod_archive loads fs) entries"
    by simp
  from r a l ms(3)
  show "\<exists>ms. mods_refresh lower loads fs mm = (Inr (), mm\<lparr>mods := ms\<rparr>)
              \<and> map archive ms = filter (valid_mod_archive loads fs) entries
              \<and> length ms + length (filter (\<lambda>f. \<not> is_zipfile fs f) entries) = length entries
              \<and> (\<forall>m \<in> set ms. Mod_init lower loads fs (archive m) = Inr m)"
    by (intro exI [of _ ms] conjI)
next
  assume "\<exists>f \<in> set entries. is_zipfile fs f \<and> \<not> valid_mod_archive loads fs f"
  then obtain f where f: "f \<in> set entries" "is_zipfile fs f" "\<not> valid_mod_archive loads fs f"
    by blast
  from f(3) obtain e where "Mod_init lower loads fs f = Inl e"
    unfolding valid_mod_archive_iff [of loads fs f lower]
    by (cases "Mod_init lower loads fs f") auto
  moreover from f have "f \<in> set (filter (is_zipfile fs) entries)" by simp
  ultimately obtain e' where "construct_all lower loads fs (filter (is_zipfile fs) entries) = Inl e'"
    using construct_all_Inl by blast
  with assms show "\<exists>e. mods_refresh lower loads fs mm = (Inl e, mm)"
    by (simp add: mods_refresh_def)
qed

lemma sample_fs_mods_dir:
  "sample_fs mods_dir = Some (Dir [''a.zip'', ''notes.txt'', ''b.zip''])"
  "sample_fs (mods_dir @ [''a.zip'']) = Some (File (Zip [''modinfo.json'' \<mapsto> Inr (doc_a @ [CHR 0x0A])]))"
  "sample_fs (mods_dir @ [''notes.txt'']) = Some (File NotZip)"
  "sample_fs (mods_dir @ [''b.zip'']) = Some (File (Zip [''modinfo.json'' \<mapsto> Inr doc_b]))"
  by (simp_all add: sample_fs_def mods_dir_def odd_dir_def bad_dir_def junk_dir_def list_dir_def)

lemma refresh_mods_dir:
  "mods_refresh ascii_lower sample_loads sample_fs (manager mods_dir ms)
     = (Inr (), manager mods_dir [mod_a, mod_b])"
  by (simp add: mods_refresh_def iterdir_def is_zipfile_def manager_def sample_fs_mods_dir
      init_a init_b and_then_Inr)

lemma sample_fs_odd_dir:
  "sample_fs odd_dir = Some (Dir [''five.zip'', ''zero.zip''])"
  "sample_fs (odd_dir @ [''five.zip'']) = Some (File (Zip [''modinfo.json'' \<mapsto> Inr doc_five]))"
  "sample_fs (odd_dir @ [''zero.zip'']) = Some (File (Zip [''modinfo.json'' \<mapsto> Inr doc_zero]))"
  by (simp_all add: sample_fs_def mods_dir_def odd_dir_def bad_dir_def junk_dir_def list_dir_def)

lemma sample_fs_bad_dir:
  "sample_fs bad_dir = Some (Dir [''b.zip'', ''list.zip'', ''empty.zip''])"
  "sample_fs (bad_dir @ [''b.zip'']) = Some (File (Zip [''modinfo.json'' \<mapsto> Inr doc_b]))"
  "sample_fs (bad_dir @ [''list.zip'']) = Some (File (Zip [''modinfo.json'' \<mapsto> Inr doc_list]))"
  "sample_fs (bad_dir @ [''empty.zip'']) = Some (File (Zip Map.empty))"
  by (simp_all add: sample_fs_def mods_dir_def odd_dir_def bad_dir_def junk_dir_def list_dir_def)

lemma sample_fs_junk_dir:
  "sample_fs junk_dir = Some (Dir [''b.zip'', ''junk.dat''])"
  "sample_fs (junk_dir @ [''b.zip'']) = Some (File (Zip [''modinfo.json'' \<mapsto> Inr doc_b]))"
  "sample_fs (junk_dir @ [''junk.dat'']) = Some (File Damaged)"
  by (simp_all add: sample_fs_def mods_dir_def odd_dir_def bad_dir_def junk_dir_def list_dir_def)

lemma sample_fs_list_dir:
  "sample_fs list_dir = Some (Dir [''list.zip'', ''notes.txt''])"
  "sample_fs (list_dir @ [''list.zip'']) = Some (File (Zip [''modinfo.json'' \<mapsto> Inr doc_list]))"
  "sample_fs (list_dir @ [''notes.txt'']) = Some (File NotZip)"
  by (simp_all add: sample_fs_def mods_dir_def odd_dir_def bad_dir_def junk_dir_def list_dir_def)

lemma init_junk_b:
  "Mod_init ascii_lower sample_loads sample_fs (junk_dir @ [''b.zip''])
     = Inr (mod_b\<lparr>archive := junk_dir @ [''b.zip'']\<rparr>)"
  by (simp add: Mod_init_def parse_archive_def and_then_def ZipFile_open_def ZipFile_read_def
     dict_items_def lower_keys_def ascii_lower_def ascii_lower_char_def strip_def is_space_def mod_b_def sample_defs)

lemma init_junk: "Mod_init ascii_lower sample_loads sample_fs (junk_dir @ [''junk.dat'']) = Inl BadZipFile"
  by (simp add: Mod_init_def parse_archive_def and_then_def ZipFile_open_def sample_fs_junk_dir)

lemma init_list_dir:
  "Mod_init ascii_lower sample_loads sample_fs (list_dir @ [''list.zip'']) = Inl AttributeError"
  by (simp add: Mod_init_def parse_archive_def and_then_def ZipFile_open_def ZipFile_read_def
     dict_items_def strip_def is_space_def sample_defs)

lemma refresh_junk_dir:
  "mods_refresh ascii_lower sample_loads sample_fs (manager junk_dir ms)
     = (Inl BadZipFile, manager junk_dir ms)"
  by (simp add: mods_refresh_def iterdir_def is_zipfile_def manager_def sample_fs_junk_dir
      init_junk_b init_junk and_then_Inr and_then_Inl)

lemma refresh_list_dir:
  "mods_refresh ascii_lower sample_loads sample_fs (manager list_dir ms)
     = (Inl AttributeError, manager list_dir ms)"
  by (simp add: mods_refresh_def iterdir_def is_zipfile_def manager_def sample_fs_list_dir
      init_list_dir and_then_Inr and_then_Inl)

lemma init_five: "Mod_init ascii_lower sample_loads sample_fs (odd_dir @ [''five.zip'']) = Inr mod_five"
  by (simp add: Mod_init_def parse_archive_def and_then_def ZipFile_open_def ZipFile_read_def
     dict_items_def lower_keys_def ascii_lower_def ascii_lower_char_def strip_def is_space_def mod_five_def sample_defs)

lemma init_zero: "Mod_init ascii_lower sample_loads sample_fs (odd_dir @ [''zero.zip'']) = Inr mod_zero"
  by (simp add: Mod_init_def parse_archive_def and_then_def ZipFile_open_def ZipFile_read_def
     dict_items_def lower_keys_def ascii_lower_def ascii_lower_char_def strip_def is_space_def mod_zero_def sample_defs)

lemma init_bad_b:
  "Mod_init ascii_lower sample_loads sample_fs (bad_dir @ [''b.zip''])
     = Inr (mod_b\<lparr>archive := bad_dir @ [''b.zip'']\<rparr>)"
  by (simp add: Mod_init_def parse_archive_def and_then_def ZipFile_open_def ZipFile_read_def
     dict_items_def lower_keys_def ascii_lower_def ascii_lower_char_def strip_def is_space_def mod_b_def sample_defs)

lemma refresh_odd_dir:
  "mods_refresh ascii_lower sample_loads sample_fs (manager odd_dir ms)
     = (Inr (), manager odd_dir [mod_five, mod_zero])"
  by (simp add: mods_refresh_def iterdir_def is_zipfile_def manager_def sample_fs_odd_dir
      init_five init_zero and_then_Inr)

lemma refresh_bad_dir:
  "mods_refresh ascii_lower sample_loads sample_fs (manager bad_dir ms) = (Inl AttributeError, manager bad_dir ms)"
  by (simp add: mods_refresh_def iterdir_def is_zipfile_def manager_def sample_fs_bad_dir
      init_bad_b init_list and_then_Inr and_then_Inl)

theorem refresh_one_record_per_valid_archive_witness:
  "iterdir sample_fs (mods_path (manager mods_dir []))
     = Inr [mods_dir @ [''a.zip''], mods_dir @ [''notes.txt''], mods_dir @ [''b.zip'']]
   \<and> valid_mod_archive sample_loads sample_fs (mods_dir @ [''a.zip''])
   \<and> \<not> is_zipfile sample_fs (mods_dir @ [''notes.txt''])
   \<and> valid_mod_archive sample_loads sample_fs (mods_dir @ [''b.zip''])
   \<and> (\<exists>ms. mods_refresh ascii_lower sample_loads sample_fs (manager mods_dir [])
               = (Inr (), (manager mods_dir [])\<lparr>mods := ms\<rparr>)
            \<and> map archive ms = [mods_dir @ [''a.zip''], mods_dir @ [''b.zip'']]
            \<and> length ms = 2)"
proof -
  let ?entries = "[mods_dir @ [''a.zip''], mods_dir @ [''notes.txt''], mods_dir @ [''b.zip'']]"
  have h1: "iterdir sample_fs (mods_path (manager mods_dir [])) = Inr ?entries"
    by (simp add: iterdir_def manager_def sample_fs_mods_dir)
  have va: "valid_mod_archive sample_loads sample_fs (mods_dir @ [''a.zip''])"
    and vb: "valid_mod_archive sample_loads sample_fs (mods_dir @ [''b.zip''])"
    by (simp_all add: valid_mod_archive_iff [where lower = ascii_lower] init_a init_b)
  have nz: "\<not> is_zipfile sample_fs (mods_dir @ [''notes.txt''])"
    by (simp add: is_zipfile_def sample_fs_mods_dir)
  have nv: "\<not> valid_mod_archive sample_loads sample_fs (mods_dir @ [''notes.txt''])"
    using nz valid_mod_archive_is_zipfile by blast
  have za: "is_zipfile sample_fs (mods_dir @ [''a.zip''])" "is_zipfile sample_fs (mods_dir @ [''b.zip''])"
    by (simp_all add: is_zipfile_def sample_fs_mods_dir)
  have h2: "\<forall>f \<in> set ?entries. valid_mod_archive sample_loads sample_fs f \<or> \<not> is_zipfile sample_fs f"
    using va vb nz by simp
  note inst = refresh_one_record_per_valid_archive
    [where loads = sample_loads and lower = ascii_lower, OF h1]
  from inst [THEN conjunct1, THEN mp, OF h2] obtain ms where
    ms: "mods_refresh ascii_lower sample_loads sample_fs (manager mods_dir [])
           = (Inr (), (manager mods_dir [])\<lparr>mods := ms\<rparr>)"
      "map archive ms = filter (valid_mod_archive sample_loads sample_fs) ?entries"
      "length ms + length (filter (\<lambda>f. \<not> is_zipfile sample_fs f) ?entries) = length ?entries"
    by (elim exE conjE)
  from ms(2) have a: "map archive ms = [mods_dir @ [''a.zip''], mods_dir @ [''b.zip'']]"
    using va vb nv by simp
  from ms(3) have l: "length ms = 2" using za nz by simp
  from ms(1) a l have "\<exists>ms. mods_refresh ascii_lower sample_loads sample_fs (manager mods_dir [])
               = (Inr (), (manager mods_dir [])\<lparr>mods := ms\<rparr>)
            \<and> map archive ms = [mods_dir @ [''a.zip''], mods_dir @ [''b.zip'']]
            \<and> length ms = 2"
    by (intro exI [of _ ms] conjI)
  with h1 va nz vb show ?thesis by (intro conjI)
qed

text \<open>
  C3 as stated fails. The directory \<^verbatim>\<open>/junk/Mods\<close> holds one valid mod archive and one
  file that is not a valid zip archive but carries a zip end record: the refresh raises
  \<^verbatim>\<open>BadZipFile\<close> instead of skipping the file. The directory \<^verbatim>\<open>/list/Mods\<close> holds a zip
  archive whose \<^verbatim>\<open>modinfo.json\<close> parses (to the list \<^verbatim>\<open>[]\<close>) and a file that is no zip:
  the refresh raises \<^verbatim>\<open>AttributeError\<close> instead of storing a record.
\<close>

theorem refresh_not_skipped_counterexample:
  "iterdir sample_fs junk_dir = Inr [junk_dir @ [''b.zip''], junk_dir @ [''junk.dat'']]
   \<and> valid_mod_archive sample_loads sample_fs (junk_dir @ [''b.zip''])
   \<and> sample_fs (junk_dir @ [''junk.dat'']) = Some (File Damaged)
   \<and> mods_refresh ascii_lower sample_loads sample_fs (manager junk_dir [])
       = (Inl BadZipFile, manager junk_dir [])
   \<and> iterdir sample_fs list_dir = Inr [list_dir @ [''list.zip''], list_dir @ [''notes.txt'']]
   \<and> sample_fs (list_dir @ [''list.zip''])
       = Some (File (Zip [''modinfo.json'' \<mapsto> Inr doc_list]))
   \<and> sample_loads (strip doc_list) = Inr (JArray [])
   \<and> sample_fs (list_dir @ [''notes.txt'']) = Some (File NotZip)
   \<and> mods_refresh ascii_lower sample_loads sample_fs (manager list_dir [])
       = (Inl AttributeError, manager list_dir [])"
proof -
  have "valid_mod_archive sample_loads sample_fs (junk_dir @ [''b.zip''])"
    by (simp add: valid_mod_archive_iff [where lower = ascii_lower] init_junk_b)
  moreover have "sample_loads (strip doc_list) = Inr (JArray [])"
    by (simp add: strip_def is_space_def sample_loads_def doc_list_def doc_a_def doc_b_def)
  ultimately show ?thesis
    by (simp add: iterdir_def sample_fs_junk_dir sample_fs_list_dir refresh_junk_dir
        refresh_list_dir)
qed

text \<open>
  C8. A refresh that raises leaves the manager as it was; it raises whenever building
  the record of some zip file in the directory fails; and when it succeeds, only the
  mods list has changed and every record in it was built completely from its archive.
\<close>

theorem refresh_failure_keeps_mods:
  "(\<forall>e. fst (mods_refresh lower loads fs mm) = Inl e \<longrightarrow> snd (mods_refresh lower loads fs mm) = mm)
   \<and> (\<forall>entries f e. iterdir fs (mods_path mm) = Inr entries \<and> f \<in> set entries
          \<and> is_zipfile fs f \<and> Mod_init lower loads fs f = Inl e
        \<longrightarrow> (\<exists>e'. mods_refresh lower loads fs mm = (Inl e', mm)))
   \<and> (\<forall>mm'. mods_refresh lower loads fs mm = (Inr (), mm')
        \<longrightarrow> data_path mm' = data_path mm \<and> mods_path mm' = mods_path mm
          \<and> (\<forall>m \<in> set (mods mm'). Mod_init lower loads fs (archive m) = Inr m))"
proof (intro conjI allI impI)
  fix e assume "fst (mods_refresh lower loads fs mm) = Inl e"
  then show "snd (mods_refresh lower loads fs mm) = mm"
    by (auto simp: mods_refresh_def Let_def split: sum.splits)
next
  fix entries f e
  assume h: "iterdir fs (mods_path mm) = Inr entries \<and> f \<in> set entries
          \<and> is_zipfile fs f \<and> Mod_init lower loads fs f = Inl e"
  then have "f \<in> set (filter (is_zipfile fs) entries)" by simp
  with h obtain e' where "construct_all lower loads fs (filter (is_zipfile fs) entries) = Inl e'"
    using construct_all_Inl by blast
  with h show "\<exists>e'. mods_refresh lower loads fs mm = (Inl e', mm)"
    by (simp add: mods_refresh_def)
next
  fix mm' assume ok: "mods_refresh lower loads fs mm = (Inr (), mm')"
  then obtain entries ms where "iterdir fs (mods_path mm) = Inr entries"
    and ms: "construct_all lower loads fs (filter (is_zipfile fs) entries) = Inr ms"
    and mm': "mm' = mm\<lparr>mods := ms\<rparr>"
    by (auto simp: mods_refresh_def Let_def split: sum.splits)
  from ms have "list_all2 (\<lambda>p m. Mod_init lower loads fs p = Inr m) (filter (is_zipfile fs) entries) ms"
    by (simp add: construct_all_Inr_iff)
  then have "\<forall>m \<in> set ms. \<exists>p. Mod_init lower loads fs p = Inr m"
    by (induction rule: list_all2_induct) auto
  then have "\<forall>m \<in> set ms. Mod_init lower loads fs (archive m) = Inr m"
    unfolding Mod_init_Inr_iff by fastforce
  with mm' show "data_path mm' = data_path mm" "mods_path mm' = mods_path mm"
    "\<forall>m \<in> set (mods mm'). Mod_init lower loads fs (archive m) = Inr m" by simp_all
qed

theorem refresh_failure_keeps_mods_witness:
  "iterdir sample_fs (mods_path (manager bad_dir [mod_a]))
     = Inr [bad_dir @ [''b.zip''], bad_dir @ [''list.zip''], bad_dir @ [''empty.zip'']]
   \<and> is_zipfile sample_fs (bad_dir @ [''list.zip''])
   \<and> Mod_init ascii_lower sample_loads sample_fs (bad_dir @ [''list.zip'']) = Inl AttributeError
   \<and> fst (mods_refresh ascii_lower sample_loads sample_fs (manager bad_dir [mod_a])) = Inl AttributeError
   \<and> snd (mods_refresh ascii_lower sample_loads sample_fs (manager bad_dir [mod_a])) = manager bad_dir [mod_a]"
proof -
  have h1: "iterdir sample_fs (mods_path (manager bad_dir [mod_a]))
     = Inr [bad_dir @ [''b.zip''], bad_dir @ [''list.zip''], bad_dir @ [''empty.zip'']]"
    by (simp add: iterdir_def manager_def sample_fs_bad_dir)
  have h2: "is_zipfile sample_fs (bad_dir @ [''list.zip''])"
    by (simp add: is_zipfile_def sample_fs_bad_dir)
  have h3: "fst (mods_refresh ascii_lower sample_loads sample_fs (manager bad_dir [mod_a])) = Inl AttributeError"
    by (simp add: refresh_bad_dir)
  from refresh_failure_keeps_mods [where lower = ascii_lower and loads = sample_loads
      and fs = sample_fs and mm = "manager bad_dir [mod_a]"] h3
  have "snd (mods_refresh ascii_lower sample_loads sample_fs (manager bad_dir [mod_a])) = manager bad_dir [mod_a]"
    by blast
  with h1 h2 h3 init_list show ?thesis by simp
qed

section \<open>Lookup\<close>

lemma and_then_assoc:
  "and_then (and_then r f) g = and_then r (\<lambda>x. and_then (f x) g)"
  by (cases r) (simp_all add: and_then_def)

lemma getattr_then_lower:
  "and_then (Mod_getattr m key) (str_lower lower)
     = (if text_or_absent m key then Inr (lower (field_text m key)) else Inl AttributeError)"
proof (cases "map_of (modinfo m) key")
  case None
  then show ?thesis
    by (simp add: Mod_getattr_eq and_then_Inr str_lower_def text_or_absent_def field_text_def)
next
  case (Some v)
  then show ?thesis
    by (cases v)
       (simp_all add: Mod_getattr_eq and_then_Inr str_lower_def text_or_absent_def field_text_def)
qed

lemma select_mods_Cons:
  "select_mods lower q (m # rest) =
     and_then (and_then (Mod_getattr m ''name'') (str_lower lower)) (\<lambda>ln.
     and_then (and_then (Mod_getattr m ''modid'') (str_lower lower)) (\<lambda>li.
     and_then (select_mods lower q rest) (\<lambda>ms.
     Inr (if q = ln \<or> q = li then m # ms else ms))))"
  by (simp add: and_then_assoc)

lemma select_mods_eq:
  "select_mods lower q ms =
     (if \<forall>m \<in> set ms. text_or_absent m ''name'' \<and> text_or_absent m ''modid''
      then Inr (filter (\<lambda>m. q = lower (field_text m ''name'') \<or> q = lower (field_text m ''modid'')) ms)
      else Inl AttributeError)"
proof (induction ms)
  case Nil
  then show ?case by simp
next
  case (Cons m ms)
  show ?case
    unfolding select_mods_Cons getattr_then_lower Cons.IH
    by (simp add: and_then_Inl and_then_Inr)
qed

lemma mods_get_eq:
  "mods_get lower mm q =
     (if \<forall>m \<in> set (mods mm). text_or_absent m ''name'' \<and> text_or_absent m ''modid''
      then Inr (filter (\<lambda>m. lower q = lower (field_text m ''name'')
                            \<or> lower q = lower (field_text m ''modid'')) (mods mm))
      else Inl AttributeError)"
  by (simp add: mods_get_def Let_def select_mods_eq)

text \<open>
  C4 (as amended). If in every record of the manager the fields \<^verbatim>\<open>name\<close> and
  \<^verbatim>\<open>modid\<close> are strings or absent, lookup returns, in order, exactly the records
  whose name or mod-id equals the query after both are lowercased by \<^verbatim>\<open>str.lower\<close>
  (any function here), an absent field reading as the empty string: all of them when several match, the empty list when none
  does. If some record has a \<^verbatim>\<open>name\<close> or \<^verbatim>\<open>modid\<close> that is not a string, lookup raises
  \<^verbatim>\<open>AttributeError\<close>.
\<close>

theorem lookup_by_name_or_modid:
  "mods_get lower mm q =
     (if \<forall>m \<in> set (mods mm). text_or_absent m ''name'' \<and> text_or_absent m ''modid''
      then Inr (filter (\<lambda>m. lower (field_text m ''name'') = lower q
                            \<or> lower (field_text m ''modid'') = lower q) (mods mm))
      else Inl AttributeError)"
proof -
  have "(\<lambda>m. lower q = lower (field_text m ''name'') \<or> lower q = lower (field_text m ''modid''))
      = (\<lambda>m. lower (field_text m ''name'') = lower q \<or> lower (field_text m ''modid'') = lower q)"
    by (auto simp: fun_eq_iff)
  then show ?thesis by (simp add: mods_get_eq)
qed

lemma field_text_empty_iff:
  "text_or_absent m key \<Longrightarrow> field_text m key = [] \<longleftrightarrow> absent_or_empty m key"
  by (cases "map_of (modinfo m) key")
     (auto simp: text_or_absent_def field_text_def absent_or_empty_def split: json.splits)

text \<open>
  C10 (as amended). If in every record of the manager the fields \<^verbatim>\<open>name\<close> and
  \<^verbatim>\<open>modid\<close> are strings or absent, lookup of the empty string returns exactly the
  records in which at least one of the two fields is absent or is the empty string;
  otherwise it raises \<^verbatim>\<open>AttributeError\<close>. Of \<^verbatim>\<open>str.lower\<close> this uses that the empty
  string, and no other, lowers to the empty string.
\<close>

theorem lookup_empty_query:
  assumes "\<forall>s. (lower s = []) = (s = [])"
  shows "mods_get lower mm [] =
     (if \<forall>m \<in> set (mods mm). text_or_absent m ''name'' \<and> text_or_absent m ''modid''
      then Inr (filter (\<lambda>m. absent_or_empty m ''name'' \<or> absent_or_empty m ''modid'') (mods mm))
      else Inl AttributeError)"
proof (cases "\<forall>m \<in> set (mods mm). text_or_absent m ''name'' \<and> text_or_absent m ''modid''")
  case True
  from assms have e: "lower [] = []" by simp
  have "filter (\<lambda>m. lower [] = lower (field_text m ''name'') \<or> lower [] = lower (field_text m ''modid'')) (mods mm)
      = filter (\<lambda>m. absent_or_empty m ''name'' \<or> absent_or_empty m ''modid'') (mods mm)"
  proof (rule filter_cong [OF refl])
    fix m assume "m \<in> set (mods mm)"
    with True have "text_or_absent m ''name''" "text_or_absent m ''modid''" by auto
    then have "field_text m ''name'' = [] \<longleftrightarrow> absent_or_empty m ''name''"
      "field_text m ''modid'' = [] \<longleftrightarrow> absent_or_empty m ''modid''"
      by (simp_all add: field_text_empty_iff)
    moreover have "([] = lower s) = (s = [])" for s using assms by (metis (full_types))
    ultimately
    show "(lower [] = lower (field_text m ''name'') \<or> lower [] = lower (field_text m ''modid''))
       = (absent_or_empty m ''name'' \<or> absent_or_empty m ''modid'')"
      by (simp add: e)
  qed
  with True show ?thesis by (simp add: mods_get_eq)
next
  case False
  show ?thesis by (simp only: mods_get_eq if_not_P [OF False])
qed

lemma sample_fields:
  "text_or_absent mod_a ''name''" "text_or_absent mod_a ''modid''"
  "text_or_absent mod_b ''name''" "text_or_absent mod_b ''modid''"
  "field_text mod_a ''name'' = ''Test Mod''" "field_text mod_a ''modid'' = ''testmod''"
  "field_text mod_b ''name'' = []" "field_text mod_b ''modid'' = ''bare''"
  "\<not> text_or_absent mod_five ''name''"
  by (simp_all add: text_or_absent_def field_text_def mod_a_def mod_b_def mod_five_def)

lemma lower_samples:
  "ascii_lower ''TestMod'' = ''testmod''" "ascii_lower ''testmod'' = ''testmod''"
  "ascii_lower ''Test Mod'' = ''test mod''" "ascii_lower ''bare'' = ''bare''" "ascii_lower [] = []"
  by (simp_all add: ascii_lower_def ascii_lower_char_def)

theorem lookup_by_name_or_modid_witness:
  "text_or_absent mod_a ''name'' \<and> text_or_absent mod_a ''modid''
   \<and> text_or_absent mod_b ''name'' \<and> text_or_absent mod_b ''modid''
   \<and> mods_get ascii_lower (manager mods_dir [mod_a, mod_b]) ''TestMod'' = Inr [mod_a]"
proof -
  have h: "\<forall>m \<in> set (mods (manager mods_dir [mod_a, mod_b])).
       text_or_absent m ''name'' \<and> text_or_absent m ''modid''"
    by (simp add: manager_def sample_fields)
  from lookup_by_name_or_modid [of ascii_lower "manager mods_dir [mod_a, mod_b]" "''TestMod''"] h
  have "mods_get ascii_lower (manager mods_dir [mod_a, mod_b]) ''TestMod'' = Inr [mod_a]"
    by (simp add: manager_def sample_fields lower_samples)
  then show ?thesis by (simp add: sample_fields)
qed

text \<open>
  C4 as stated fails: in a directory with an archive whose \<^verbatim>\<open>Name\<close> is the number 5,
  the refresh succeeds, and the lookup of \<^verbatim>\<open>zero\<close>, the mod-id of the other record,
  raises instead of returning that record.
\<close>

theorem lookup_non_text_name_counterexample:
  "mods_refresh ascii_lower sample_loads sample_fs (manager odd_dir [])
     = (Inr (), manager odd_dir [mod_five, mod_zero])
   \<and> dict_getitem (modinfo mod_five) ''name'' = Inr (JInt 5)
   \<and> mods_get ascii_lower (manager odd_dir [mod_five, mod_zero]) ''zero'' = Inl AttributeError"
  by (simp add: refresh_odd_dir)
     (simp add: mods_get_def manager_def Mod_getattr_def dict_getitem_def str_lower_def
        and_then_def mod_five_def)

theorem lookup_empty_query_witness:
  "text_or_absent mod_a ''name'' \<and> text_or_absent mod_a ''modid''
   \<and> text_or_absent mod_b ''name'' \<and> text_or_absent mod_b ''modid''
   \<and> mods_get ascii_lower (manager mods_dir [mod_a, mod_b]) [] = Inr [mod_b]"
proof -
  have h: "\<forall>m \<in> set (mods (manager mods_dir [mod_a, mod_b])).
       text_or_absent m ''name'' \<and> text_or_absent m ''modid''"
    by (simp add: manager_def sample_fields)
  have e: "\<not> absent_or_empty mod_a ''name''" "\<not> absent_or_empty mod_a ''modid''"
    "absent_or_empty mod_b ''name''"
    by (simp_all add: absent_or_empty_def mod_a_def mod_b_def)
  have p: "\<forall>s. (ascii_lower s = []) = (s = [])" by (simp add: ascii_lower_def)
  from lookup_empty_query [OF p, of "manager mods_dir [mod_a, mod_b]"] h
  have "mods_get ascii_lower (manager mods_dir [mod_a, mod_b]) [] = Inr [mod_b]"
    by (simp add: manager_def e)
  then show ?thesis by (simp add: sample_fields)
qed

text \<open>
  C10 as stated fails: the record of \<^verbatim>\<open>b.zip\<close> has the mod-id \<^verbatim>\<open>bare\<close> and no name,
  so not both fields are absent or empty, and the empty query returns it.
\<close>

theorem lookup_empty_query_counterexample:
  "mods_refresh ascii_lower sample_loads sample_fs (manager mods_dir [])
     = (Inr (), manager mods_dir [mod_a, mod_b])
   \<and> dict_getitem (modinfo mod_b) ''modid'' = Inr (JString ''bare'')
   \<and> mods_get ascii_lower (manager mods_dir [mod_a, mod_b]) [] = Inr [mod_b]"
  by (simp add: refresh_mods_dir)
     (simp add: mods_get_def manager_def Mod_getattr_def dict_getitem_def str_lower_def
        and_then_def mod_a_def mod_b_def ascii_lower_def ascii_lower_char_def)

section \<open>Presentation\<close>










section \<open>Construction\<close>

lemma Mod_init_zip:
  assumes "fs a = Some (File (Zip es))"
  shows "Mod_init lower loads fs a =
     (case es ''modinfo.json'' of
        None \<Rightarrow> Inl KeyError
      | Some (Inl e) \<Rightarrow> Inl e
      | Some (Inr b) \<Rightarrow>
          (case loads (strip b) of
             Inl e \<Rightarrow> Inl e
           | Inr v \<Rightarrow>
               (case dict_items v of
                  Inl e \<Rightarrow> Inl e
                | Inr kvs \<Rightarrow>
                    Inr \<lparr>archive = a, modinfo_string = strip b, modinfo_raw = v,
                         modinfo = lower_keys lower kvs\<rparr>)))"
  using assms
  by (simp add: Mod_init_def parse_archive_def ZipFile_open_def ZipFile_read_def and_then_def
      Let_def split: option.splits sum.splits)

lemma Mod_init_not_zip:
  assumes "\<forall>es. fs a \<noteq> Some (File (Zip es))"
  shows "\<exists>e. Mod_init lower loads fs a = Inl e"
proof (cases "Mod_init lower loads fs a")
  case (Inl e)
  then show ?thesis by blast
next
  case (Inr m)
  then obtain es where "fs a = Some (File (Zip es))" unfolding Mod_init_Inr_iff by blast
  with assms show ?thesis by blast
qed

lemma dict_items_not_object: "(\<forall>kvs. v \<noteq> JObject kvs) \<Longrightarrow> dict_items v = Inl AttributeError"
  by (cases v) (simp_all add: dict_items_def)

lemma construction_errors:
  assumes "fs a = Some (File (Zip es))"
  shows "es ''modinfo.json'' = None \<Longrightarrow> Mod_init lower loads fs a = Inl KeyError"
    and "es ''modinfo.json'' = Some (Inl e) \<Longrightarrow> Mod_init lower loads fs a = Inl e"
    and "es ''modinfo.json'' = Some (Inr b) \<Longrightarrow> loads (strip b) = Inl e
           \<Longrightarrow> Mod_init lower loads fs a = Inl e"
    and "es ''modinfo.json'' = Some (Inr b) \<Longrightarrow> loads (strip b) = Inr v
           \<Longrightarrow> \<forall>kvs. v \<noteq> JObject kvs \<Longrightarrow> Mod_init lower loads fs a = Inl AttributeError"
    and "es ''modinfo.json'' = Some (Inr b) \<Longrightarrow> loads (strip b) = Inr (JObject kvs)
           \<Longrightarrow> Mod_init lower loads fs a
               = Inr \<lparr>archive = a, modinfo_string = strip b, modinfo_raw = JObject kvs,
                      modinfo = lower_keys lower kvs\<rparr>"
proof -
  note z = Mod_init_zip [where fs = fs and a = a and es = es, OF assms]
  show "es ''modinfo.json'' = None \<Longrightarrow> Mod_init lower loads fs a = Inl KeyError"
    by (simp add: z)
  show "es ''modinfo.json'' = Some (Inl e) \<Longrightarrow> Mod_init lower loads fs a = Inl e"
    by (simp add: z)
  show "es ''modinfo.json'' = Some (Inr b) \<Longrightarrow> loads (strip b) = Inl e
           \<Longrightarrow> Mod_init lower loads fs a = Inl e"
    by (simp add: z)
  show "es ''modinfo.json'' = Some (Inr b) \<Longrightarrow> loads (strip b) = Inr v
           \<Longrightarrow> \<forall>kvs. v \<noteq> JObject kvs \<Longrightarrow> Mod_init lower loads fs a = Inl AttributeError"
    by (simp add: z dict_items_not_object)
  show "es ''modinfo.json'' = Some (Inr b) \<Longrightarrow> loads (strip b) = Inr (JObject kvs)
           \<Longrightarrow> Mod_init lower loads fs a
               = Inr \<lparr>archive = a, modinfo_string = strip b, modinfo_raw = JObject kvs,
                      modinfo = lower_keys lower kvs\<rparr>"
    by (simp add: z dict_items_def)
qed

lemma construction_fails_iff_zip:
  assumes "fs a = Some (File (Zip es))"
  shows "(\<exists>e. Mod_init lower loads fs a = Inl e) \<longleftrightarrow>
           es ''modinfo.json'' = None
         \<or> (\<exists>e. es ''modinfo.json'' = Some (Inl e))
         \<or> (\<exists>b e. es ''modinfo.json'' = Some (Inr b) \<and> loads (strip b) = Inl e)
         \<or> (\<exists>b v. es ''modinfo.json'' = Some (Inr b) \<and> loads (strip b) = Inr v
                   \<and> (\<forall>kvs. v \<noteq> JObject kvs))"
proof (cases "es ''modinfo.json''")
  case None
  with construction_errors(1) [where fs = fs and a = a and es = es, OF assms] show ?thesis by simp
next
  case (Some r)
  show ?thesis
  proof (cases r)
    case (Inl e)
    with Some construction_errors(2) [where fs = fs and a = a and es = es, OF assms] show ?thesis by simp
  next
    case (Inr b)
    show ?thesis
    proof (cases "loads (strip b)")
      case (Inl e)
      with Some \<open>r = Inr b\<close> construction_errors(3) [where fs = fs and a = a and es = es, OF assms] show ?thesis by simp
    next
      case v: (Inr v)
      show ?thesis
      proof (cases "\<exists>kvs. v = JObject kvs")
        case True
        then obtain kvs where "v = JObject kvs" ..
        with Some \<open>r = Inr b\<close> v construction_errors(5) [where fs = fs and a = a and es = es and b = b and loads = loads and kvs = kvs and lower = lower, OF assms]
        show ?thesis by simp
      next
        case False
        with Some \<open>r = Inr b\<close> v construction_errors(4) [where fs = fs and a = a and es = es and b = b and loads = loads and v = v and lower = lower, OF assms]
        show ?thesis by simp
      qed
    qed
  qed
qed

text \<open>
  C6 (as amended). Building the record of a path fails if and only if the path is not a
  zip archive that opens, or the archive has no entry \<^verbatim>\<open>modinfo.json\<close>, or reading the
  entry raises, or \<^verbatim>\<open>json.loads\<close> rejects the stripped content, or the parsed value is
  not a JSON object. For an archive that opens the exception is \<^verbatim>\<open>KeyError\<close>, the one
  the read raised, the one \<^verbatim>\<open>json.loads\<close> raised, or \<^verbatim>\<open>AttributeError\<close>, in that
  order. On success the keys of the metadata mapping are exactly the lowercased keys of
  the parsed object, each once, and each maps to the value of the last entry of the
  object whose key has that lowercase form.
\<close>

theorem construction_outcome:
  "((\<exists>e. Mod_init lower loads fs a = Inl e) \<longleftrightarrow>
        (\<forall>es. fs a \<noteq> Some (File (Zip es)))
      \<or> (\<exists>es. fs a = Some (File (Zip es))
            \<and> (es ''modinfo.json'' = None
               \<or> (\<exists>e. es ''modinfo.json'' = Some (Inl e))
               \<or> (\<exists>b e. es ''modinfo.json'' = Some (Inr b) \<and> loads (strip b) = Inl e)
               \<or> (\<exists>b v. es ''modinfo.json'' = Some (Inr b) \<and> loads (strip b) = Inr v
                         \<and> (\<forall>kvs. v \<noteq> JObject kvs)))))
   \<and> (\<forall>es. fs a = Some (File (Zip es)) \<longrightarrow>
          (es ''modinfo.json'' = None \<longrightarrow> Mod_init lower loads fs a = Inl KeyError)
        \<and> (\<forall>e. es ''modinfo.json'' = Some (Inl e) \<longrightarrow> Mod_init lower loads fs a = Inl e)
        \<and> (\<forall>b e. es ''modinfo.json'' = Some (Inr b) \<and> loads (strip b) = Inl e
              \<longrightarrow> Mod_init lower loads fs a = Inl e)
        \<and> (\<forall>b v. es ''modinfo.json'' = Some (Inr b) \<and> loads (strip b) = Inr v
                 \<and> (\<forall>kvs. v \<noteq> JObject kvs)
              \<longrightarrow> Mod_init lower loads fs a = Inl AttributeError)
        \<and> (\<forall>b kvs. es ''modinfo.json'' = Some (Inr b) \<and> loads (strip b) = Inr (JObject kvs)
              \<longrightarrow> (\<exists>m. Mod_init lower loads fs a = Inr m \<and> archive m = a
                     \<and> map_of (modinfo m) = map_of (rev (map (\<lambda>(k, v). (lower k, v)) kvs))
                     \<and> fst ` set (modinfo m) = lower ` fst ` set kvs
                     \<and> distinct (map fst (modinfo m)))))"
proof (rule conjI)
  show "(\<exists>e. Mod_init lower loads fs a = Inl e) \<longleftrightarrow>
        (\<forall>es. fs a \<noteq> Some (File (Zip es)))
      \<or> (\<exists>es. fs a = Some (File (Zip es))
            \<and> (es ''modinfo.json'' = None
               \<or> (\<exists>e. es ''modinfo.json'' = Some (Inl e))
               \<or> (\<exists>b e. es ''modinfo.json'' = Some (Inr b) \<and> loads (strip b) = Inl e)
               \<or> (\<exists>b v. es ''modinfo.json'' = Some (Inr b) \<and> loads (strip b) = Inr v
                         \<and> (\<forall>kvs. v \<noteq> JObject kvs))))"
  proof (cases "\<exists>es. fs a = Some (File (Zip es))")
    case False
    then have "\<forall>es. fs a \<noteq> Some (File (Zip es))" by blast
    with Mod_init_not_zip [where fs = fs and a = a and lower = lower and loads = loads]
    show ?thesis by blast
  next
    case True
    then obtain es where es: "fs a = Some (File (Zip es))" ..
    from construction_fails_iff_zip
      [where fs = fs and a = a and es = es and lower = lower and loads = loads, OF es] es
    show ?thesis by simp
  qed
next
  show "\<forall>es. fs a = Some (File (Zip es)) \<longrightarrow>
          (es ''modinfo.json'' = None \<longrightarrow> Mod_init lower loads fs a = Inl KeyError)
        \<and> (\<forall>e. es ''modinfo.json'' = Some (Inl e) \<longrightarrow> Mod_init lower loads fs a = Inl e)
        \<and> (\<forall>b e. es ''modinfo.json'' = Some (Inr b) \<and> loads (strip b) = Inl e
              \<longrightarrow> Mod_init lower loads fs a = Inl e)
        \<and> (\<forall>b v. es ''modinfo.json'' = Some (Inr b) \<and> loads (strip b) = Inr v
                 \<and> (\<forall>kvs. v \<noteq> JObject kvs)
              \<longrightarrow> Mod_init lower loads fs a = Inl AttributeError)
        \<and> (\<forall>b kvs. es ''modinfo.json'' = Some (Inr b) \<and> loads (strip b) = Inr (JObject kvs)
              \<longrightarrow> (\<exists>m. Mod_init lower loads fs a = Inr m \<and> archive m = a
                     \<and> map_of (modinfo m) = map_of (rev (map (\<lambda>(k, v). (lower k, v)) kvs))
                     \<and> fst ` set (modinfo m) = lower ` fst ` set kvs
                     \<and> distinct (map fst (modinfo m))))"
  proof (intro allI impI conjI)
    fix es assume es: "fs a = Some (File (Zip es))"
    {
      assume "es ''modinfo.json'' = None"
      then show "Mod_init lower loads fs a = Inl KeyError"
        by (rule construction_errors(1) [where fs = fs and a = a and es = es, OF es])
    next
      fix e assume "es ''modinfo.json'' = Some (Inl e)"
      then show "Mod_init lower loads fs a = Inl e"
        by (rule construction_errors(2) [where fs = fs and a = a and es = es, OF es])
    next
      fix b e assume "es ''modinfo.json'' = Some (Inr b) \<and> loads (strip b) = Inl e"
      then show "Mod_init lower loads fs a = Inl e"
        using construction_errors(3) [where fs = fs and a = a and es = es, OF es] by blast
    next
      fix b v assume "es ''modinfo.json'' = Some (Inr b) \<and> loads (strip b) = Inr v
                 \<and> (\<forall>kvs. v \<noteq> JObject kvs)"
      then show "Mod_init lower loads fs a = Inl AttributeError"
        using construction_errors(4) [where fs = fs and a = a and es = es and b = b and loads = loads and v = v and lower = lower, OF es] by blast
    next
      fix b kvs
      assume h: "es ''modinfo.json'' = Some (Inr b) \<and> loads (strip b) = Inr (JObject kvs)"
      let ?m = "\<lparr>archive = a, modinfo_string = strip b, modinfo_raw = JObject kvs,
                  modinfo = lower_keys lower kvs\<rparr>"
      from h have "Mod_init lower loads fs a = Inr ?m"
        using construction_errors(5) [where fs = fs and a = a and es = es and b = b and loads = loads and kvs = kvs and lower = lower, OF es] by blast
      then show "\<exists>m. Mod_init lower loads fs a = Inr m \<and> archive m = a
                     \<and> map_of (modinfo m) = map_of (rev (map (\<lambda>(k, v). (lower k, v)) kvs))
                     \<and> fst ` set (modinfo m) = lower ` fst ` set kvs
                     \<and> distinct (map fst (modinfo m))"
        by (intro exI [of _ ?m])
           (simp add: map_of_lower_keys keys_lower_keys distinct_lower_keys)
    }
  qed
qed

theorem construction_outcome_witness:
  "sample_fs (mods_dir @ [''a.zip''])
     = Some (File (Zip [''modinfo.json'' \<mapsto> Inr (doc_a @ [CHR 0x0A])]))
   \<and> sample_loads (strip (doc_a @ [CHR 0x0A])) = Inr raw_a
   \<and> (\<exists>m. Mod_init ascii_lower sample_loads sample_fs (mods_dir @ [''a.zip'']) = Inr m
          \<and> archive m = mods_dir @ [''a.zip'']
          \<and> fst ` set (modinfo m) = {''name'', ''modid'', ''version'', ''description''})"
proof -
  let ?kvs = "[(''Name'', JString ''Test Mod''), (''ModID'', JString ''testmod''),
               (''Version'', JString ''1.0.0''), (''Description'', JString ''A test'')]"
  let ?es = "[''modinfo.json'' \<mapsto> Inr (doc_a @ [CHR 0x0A])] :: string \<Rightarrow> (error + string) option"
  have h: "sample_fs (mods_dir @ [''a.zip'']) = Some (File (Zip ?es))"
    by (rule sample_fs_mods_dir)
  have e: "?es ''modinfo.json'' = Some (Inr (doc_a @ [CHR 0x0A]))"
    by simp
  have l: "sample_loads (strip (doc_a @ [CHR 0x0A])) = Inr (JObject ?kvs)"
    by (simp add: strip_doc) (simp add: sample_loads_def raw_a_def)
  have k: "ascii_lower ` fst ` set ?kvs = {''name'', ''modid'', ''version'', ''description''}"
    by (simp add: ascii_lower_def ascii_lower_char_def)
  note all = construction_outcome [where fs = sample_fs and a = "mods_dir @ [''a.zip'']"
      and loads = sample_loads and lower = ascii_lower]
  note zip = all [THEN conjunct2, THEN spec, THEN mp, OF h]
  note last = zip [THEN conjunct2, THEN conjunct2, THEN conjunct2, THEN conjunct2]
  from last [THEN spec, THEN spec, THEN mp, OF conjI, OF e l]
  obtain m where "Mod_init ascii_lower sample_loads sample_fs (mods_dir @ [''a.zip'']) = Inr m"
    "archive m = mods_dir @ [''a.zip'']"
    "fst ` set (modinfo m) = ascii_lower ` fst ` set ?kvs"
    by (elim exE conjE)
  with k have "\<exists>m. Mod_init ascii_lower sample_loads sample_fs (mods_dir @ [''a.zip'']) = Inr m
          \<and> archive m = mods_dir @ [''a.zip'']
          \<and> fst ` set (modinfo m) = {''name'', ''modid'', ''version'', ''description''}"
    by (intro exI [of _ m]) simp
  with h l show ?thesis by (simp add: raw_a_def)
qed

text \<open>
  C6 as stated fails: the archive \<^verbatim>\<open>list.zip\<close> has the entry, its content \<^verbatim>\<open>[]\<close> is valid
  JSON, and building the record fails all the same.
\<close>

theorem construction_non_object_counterexample:
  "sample_fs (bad_dir @ [''list.zip'']) = Some (File (Zip [''modinfo.json'' \<mapsto> Inr doc_list]))
   \<and> sample_loads (strip doc_list) = Inr (JArray [])
   \<and> Mod_init ascii_lower sample_loads sample_fs (bad_dir @ [''list.zip'']) = Inl AttributeError"
  by (simp add: sample_fs_bad_dir init_list)
     (simp add: strip_def is_space_def sample_loads_def doc_list_def doc_a_def doc_b_def)

section \<open>Unimplemented operations\<close>

text \<open>
  C7 (as amended). Each of the five unimplemented operations (check-for-update, remove
  and update-to-version of a record; install and remove-by-id of the manager) returns
  \<^verbatim>\<open>None\<close> without raising and leaves its object unchanged, for every input.
\<close>

theorem stubs_return_silently:
  "Mod_check_update m = (Inr (), m)
   \<and> Mod_remove m = (Inr (), m)
   \<and> Mod_update m version = (Inr (), m)
   \<and> mod_install mm = (Inr (), mm)
   \<and> mod_remove mm modid = (Inr (), mm)"
  by (simp add: Mod_check_update_def Mod_remove_def Mod_update_def mod_install_def mod_remove_def)

text \<open>
  C7 as stated fails: on the record of \<^verbatim>\<open>a.zip\<close> and on a manager holding it, every one
  of the five calls returns normally; none raises.
\<close>

theorem stubs_not_implemented_counterexample:
  "Mod_check_update mod_a = (Inr (), mod_a)
   \<and> Mod_remove mod_a = (Inr (), mod_a)
   \<and> Mod_update mod_a ''2.0.0'' = (Inr (), mod_a)
   \<and> mod_install (manager mods_dir [mod_a]) = (Inr (), manager mods_dir [mod_a])
   \<and> mod_remove (manager mods_dir [mod_a]) ''testmod'' = (Inr (), manager mods_dir [mod_a])"
  by (simp add: Mod_check_update_def Mod_remove_def Mod_update_def mod_install_def mod_remove_def)

end
